theory Spec2Isabelle
  imports Main "HOL-Library.Word"
begin

section \<open>Level data (src/features/levels/types.ts, data.ts)\<close>

datatype Difficulty = easy | medium | hard | expert

text \<open>
  The \<open>Level\<close> interface. The fields \<open>title\<close>, \<open>targetImageUrl\<close>,
  \<open>hiddenPromptKeywords\<close> and the hint texts are display content that none of the
  functions below reads; the record keeps the identifier, the difficulty, the passing
  score, the number of hint texts and the estimated time.
\<close>

record Level =
  id_Level :: string
  difficulty :: Difficulty
  passingScore :: int
  hintCount :: nat
  estimatedTime :: int

record LevelProgress =
  levelId :: string
  isUnlocked :: bool
  bestScore :: int
  attempts :: int
  completed :: bool
  lastPlayedAt :: "string option"

record GameState =
  currentLives :: int
  maxLives :: int
  levelProgress :: "string \<rightharpoonup> LevelProgress"
  totalScore :: int
  achievements :: "string list"

definition mkLevel :: "string \<Rightarrow> Difficulty \<Rightarrow> int \<Rightarrow> int \<Rightarrow> Level" where
  "mkLevel i d p t =
     \<lparr>id_Level = i, difficulty = d, passingScore = p, hintCount = 3, estimatedTime = t\<rparr>"

definition LEVELS :: "Level list" where
  "LEVELS =
    [mkLevel ''easy-001'' easy 60 3,
     mkLevel ''easy-002'' easy 60 3,
     mkLevel ''easy-003'' easy 60 3,
     mkLevel ''easy-004'' easy 60 3,
     mkLevel ''easy-005'' easy 60 4,
     mkLevel ''medium-006'' medium 70 5,
     mkLevel ''medium-007'' medium 70 5,
     mkLevel ''medium-008'' medium 70 6,
     mkLevel ''medium-009'' medium 70 5,
     mkLevel ''medium-010'' medium 70 6,
     mkLevel ''hard-011'' hard 80 8,
     mkLevel ''hard-012'' hard 80 8,
     mkLevel ''hard-013'' hard 80 7,
     mkLevel ''hard-014'' hard 80 8,
     mkLevel ''hard-015'' hard 80 9,
     mkLevel ''expert-016'' expert 85 10,
     mkLevel ''expert-017'' expert 85 10,
     mkLevel ''expert-018'' expert 85 11,
     mkLevel ''expert-019'' expert 85 12,
     mkLevel ''expert-020'' expert 85 12]"

section \<open>JavaScript array helpers\<close>

text \<open>\<open>Array.prototype.findIndex\<close>: the first index whose element satisfies the
  predicate, \<open>-1\<close> when there is none.\<close>

fun findIndex :: "('a \<Rightarrow> bool) \<Rightarrow> 'a list \<Rightarrow> int" where
  "findIndex P [] = -1"
| "findIndex P (x # xs) =
     (if P x then 0
      else (let i = findIndex P xs in if i < 0 then -1 else i + 1))"

text \<open>Indexing \<open>xs[i]\<close>: \<open>undefined\<close> (here \<open>None\<close>) outside the array.\<close>

definition at_index :: "'a list \<Rightarrow> int \<Rightarrow> 'a option" where
  "at_index xs i = (if 0 \<le> i \<and> i < int (length xs) then Some (xs ! nat i) else None)"

section \<open>The game store (src/features/game/store.ts)\<close>

text \<open>
  \<open>TypeError\<close>: a property is read from \<open>undefined\<close>.
  \<open>NotALevelProgress\<close>: the store would hold an object that is not a
  \<open>LevelProgress\<close> (the spread of a missing entry, \<open>{isUnlocked: true}\<close>); the
  progress map of the model holds \<open>LevelProgress\<close> values only, so this branch is
  reported instead of inventing the missing fields.
\<close>

datatype error = TypeError | NotALevelProgress

definition createDefaultProgress :: "string \<rightharpoonup> LevelProgress" where
  "createDefaultProgress =
     fold (\<lambda>(level, index) progress.
             progress(id_Level level \<mapsto>
               \<lparr>levelId = id_Level level, isUnlocked = (index = 0), bestScore = 0,
                attempts = 0, completed = False, lastPlayedAt = None\<rparr>))
          (zip LEVELS [0 ..< length LEVELS]) Map.empty"

definition initialState :: GameState where
  "initialState =
     \<lparr>currentLives = 3, maxLives = 3, levelProgress = createDefaultProgress,
      totalScore = 0, achievements = []\<rparr>"

definition unlockLevel :: "string \<Rightarrow> GameState \<Rightarrow> error + GameState" where
  "unlockLevel lid state =
     (case levelProgress state lid of
        None \<Rightarrow> Inl NotALevelProgress
      | Some p \<Rightarrow>
          Inr (state\<lparr>levelProgress := (levelProgress state)(lid \<mapsto> p\<lparr>isUnlocked := True\<rparr>)\<rparr>))"

text \<open>
  \<open>updateLevelProgress(levelId, score)\<close>; \<open>now\<close> is the value of
  \<open>new Date().toISOString()\<close>. The entry of the next level is read from the old
  state and written after the entry of \<open>levelId\<close>, as the object literal does.
\<close>

definition updateLevelProgress :: "string \<Rightarrow> string \<Rightarrow> int \<Rightarrow> GameState \<Rightarrow> error + GameState" where
  "updateLevelProgress now lid score state =
     (case levelProgress state lid of
        None \<Rightarrow> Inl TypeError
      | Some currentProgress \<Rightarrow>
          (let isNewBest = (score > bestScore currentProgress) in
           case find (\<lambda>l. id_Level l = lid) LEVELS of
             None \<Rightarrow> Inl TypeError
           | Some found \<Rightarrow>
               (let isCompleted = (score \<ge> passingScore found);
                    currentIndex = findIndex (\<lambda>l. id_Level l = lid) LEVELS;
                    nextLevel = at_index LEVELS (currentIndex + 1);
                    own = (levelProgress state)(lid \<mapsto> currentProgress
                            \<lparr>bestScore := max (bestScore currentProgress) score,
                             attempts := attempts currentProgress + 1,
                             completed := (isCompleted \<or> completed currentProgress),
                             lastPlayedAt := Some now\<rparr>);
                    total = (if isNewBest
                             then totalScore state + (score - bestScore currentProgress)
                             else totalScore state)
                in case (if isCompleted then nextLevel else None) of
                     None \<Rightarrow> Inr (state\<lparr>levelProgress := own, totalScore := total\<rparr>)
                   | Some nl \<Rightarrow>
                       (case levelProgress state (id_Level nl) of
                          None \<Rightarrow> Inl NotALevelProgress
                        | Some np \<Rightarrow>
                            Inr (state\<lparr>levelProgress :=
                                         own(id_Level nl \<mapsto> np\<lparr>isUnlocked := True\<rparr>),
                                       totalScore := total\<rparr>)))))"

definition loseLife :: "GameState \<Rightarrow> GameState" where
  "loseLife state = state\<lparr>currentLives := max 0 (currentLives state - 1)\<rparr>"

definition resetLives :: "GameState \<Rightarrow> GameState" where
  "resetLives state = state\<lparr>currentLives := maxLives state\<rparr>"

text \<open>\<open>getNextLevel\<close> (data.ts): the level after the current one, if any.\<close>

definition getNextLevel :: "string \<Rightarrow> Level option" where
  "getNextLevel currentLevelId =
     (let currentIndex = findIndex (\<lambda>level. id_Level level = currentLevelId) LEVELS
      in at_index LEVELS (currentIndex + 1))"

text \<open>Every level of \<open>LEVELS\<close> has a progress entry, as \<open>createDefaultProgress\<close>
  establishes.\<close>

definition hasAllLevels :: "GameState \<Rightarrow> bool" where
  "hasAllLevels state = list_all (\<lambda>l. levelProgress state (id_Level l) \<noteq> None) LEVELS"

section \<open>JavaScript strings and numbers\<close>

text \<open>A JavaScript string is a sequence of UTF-16 code units. \<open>trim\<close> removes the
  ECMAScript WhiteSpace and LineTerminator code units from both ends.\<close>

type_synonym jsstring = "16 word list"

definition isWhiteSpace :: "16 word \<Rightarrow> bool" where
  "isWhiteSpace c =
     (c \<in> set [0x09, 0x0A, 0x0B, 0x0C, 0x0D, 0x20, 0xA0, 0x1680, 0x2028, 0x2029,
               0x202F, 0x205F, 0x3000, 0xFEFF]
      \<or> (0x2000 \<le> c \<and> c \<le> 0x200A))"

definition trim :: "jsstring \<Rightarrow> jsstring" where
  "trim s = rev (dropWhile isWhiteSpace (rev (dropWhile isWhiteSpace s)))"

text \<open>Decimal rendering of an integer, as a template literal renders a number that is
  an integer.\<close>

fun showNat :: "nat \<Rightarrow> string" where
  "showNat n =
     (if n < 10 then [char_of (48 + n)]
      else showNat (n div 10) @ [char_of (48 + n mod 10)])"

declare showNat.simps [simp del]

definition showInt :: "int \<Rightarrow> string" where
  "showInt i = (if i < 0 then CHR ''-'' # showNat (nat (- i)) else showNat (nat i))"

section \<open>Hint ledger and penalty calculator (\<open>NanoAssistant\<close>)\<close>

text \<open>
  The module \<open>@/lib/nanoAssistant\<close> (\<open>resetHintsForLevel\<close>, \<open>getPenaltyDetails\<close> and
  the hint ledger behind them) is not among the sources; only its call sites in the game
  screen are. The definitions of this section follow sections 3, 4.1 and 4.2 of the
  specification.
\<close>

text \<open>Modelled from the spec: the \<open>HintUsageRecord\<close> of section 3, missing with
  \<open>@/lib/nanoAssistant\<close>. A usage record lists the revealed hint indices with their
  reveal times, in the order of disclosure; the ledger maps a level id to its record.\<close>

type_synonym HintUsageRecord = "(nat \<times> nat) list"
type_synonym HintLedger = "string \<rightharpoonup> HintUsageRecord"

text \<open>Modelled from the spec: the result of \<open>revealNext\<close>, a hint index or the signal
  that no hint is left.\<close>

datatype Reveal = HintIndex nat | NoMoreHints

text \<open>Modelled from the spec: \<open>HintLedger.reset\<close> (section 4.1), the
  \<open>resetHintsForLevel\<close> of the missing module; it clears the record of the level.\<close>

definition reset :: "string \<Rightarrow> HintLedger \<Rightarrow> HintLedger" where
  "reset lid ledger = ledger(lid \<mapsto> [])"

text \<open>Modelled from the spec: \<open>HintLedger.revealNext\<close> (section 4.1), missing with
  \<open>@/lib/nanoAssistant\<close>. It gives the least index below the level's number of hints
  that is not yet revealed and records it with the current time; an unknown level, or a
  level whose hints are all revealed, gives \<open>NoMoreHints\<close> and leaves the ledger as it
  is.\<close>

definition revealNext :: "nat \<Rightarrow> nat \<Rightarrow> string \<Rightarrow> HintLedger \<Rightarrow> Reveal \<times> HintLedger" where
  "revealNext totalHints now lid ledger =
     (case ledger lid of
        None \<Rightarrow> (NoMoreHints, ledger)
      | Some r \<Rightarrow>
          (case find (\<lambda>i. i \<notin> set (map fst r)) [0 ..< totalHints] of
             None \<Rightarrow> (NoMoreHints, ledger)
           | Some i \<Rightarrow> (HintIndex i, ledger(lid \<mapsto> r @ [(i, now)]))))"

text \<open>Modelled from the spec: \<open>HintLedger.usageCount\<close> (section 4.1), missing with
  \<open>@/lib/nanoAssistant\<close>: the number of hints revealed for the level, zero for an
  unknown level.\<close>

definition usageCount :: "string \<Rightarrow> HintLedger \<Rightarrow> nat" where
  "usageCount lid ledger = (case ledger lid of None \<Rightarrow> 0 | Some r \<Rightarrow> length r)"

text \<open>Successive calls of \<open>revealNext\<close>, one per time stamp; the results in call order
  and the final ledger.\<close>

fun revealMany :: "nat \<Rightarrow> nat list \<Rightarrow> string \<Rightarrow> HintLedger \<Rightarrow> Reveal list \<times> HintLedger" where
  "revealMany totalHints [] lid ledger = ([], ledger)"
| "revealMany totalHints (now # stamps) lid ledger =
     (let (r, ledger') = revealNext totalHints now lid ledger;
          (rs, ledger'') = revealMany totalHints stamps lid ledger'
      in (r # rs, ledger''))"

text \<open>Modelled from the spec: the \<open>ScoreBreakdown\<close> of section 3, the value
  \<open>getPenaltyDetails\<close> of the missing module returns; the game screen reads its fields
  \<open>finalScore\<close>, \<open>penaltyPoints\<close> and \<open>hintsUsed\<close>.\<close>

record ScoreBreakdown =
  rawScore :: int
  hintsUsed :: int
  penaltyPerHint :: int
  penaltyPoints :: int
  finalScore :: int

text \<open>Modelled from the spec: the per-hint penalty table of section 4.2, step 1, missing
  with \<open>@/lib/nanoAssistant\<close>.\<close>

fun penaltyPerHintFor :: "Difficulty \<Rightarrow> int" where
  "penaltyPerHintFor easy = 8"
| "penaltyPerHintFor medium = 6"
| "penaltyPerHintFor hard = 4"
| "penaltyPerHintFor expert = 3"

text \<open>Modelled from the spec: the clamp of section 4.2, step 3.\<close>

definition clamp :: "int \<Rightarrow> int \<Rightarrow> int \<Rightarrow> int" where
  "clamp x lo hi = max lo (min hi x)"

text \<open>Modelled from the spec: \<open>PenaltyCalculator.compute\<close>, section 4.2, steps 1 to 3,
  missing with \<open>@/lib/nanoAssistant\<close>. The passing score is an input that the
  algorithm does not read.\<close>

definition compute :: "int \<Rightarrow> int \<Rightarrow> Difficulty \<Rightarrow> int \<Rightarrow> ScoreBreakdown" where
  "compute raw passing d hints =
     (let perHint = penaltyPerHintFor d;
          points = min (hints * perHint) raw
      in \<lparr>rawScore = raw, hintsUsed = hints, penaltyPerHint = perHint,
          penaltyPoints = points, finalScore = clamp (raw - points) 0 100\<rparr>)"

text \<open>Modelled from the spec: \<open>NanoAssistant.getPenaltyDetails(levelId, score,
  passingScore, difficulty)\<close>, whose body is missing; it reads the usage count of the
  level from the ledger (section 4.3) and applies the calculator.\<close>

definition getPenaltyDetails :: "HintLedger \<Rightarrow> string \<Rightarrow> int \<Rightarrow> int \<Rightarrow> Difficulty \<Rightarrow> ScoreBreakdown" where
  "getPenaltyDetails ledger lid score passing d =
     compute score passing d (int (usageCount lid ledger))"

section \<open>The game screen (\<open>GameScreen\<close>, \<open>handleGenerate\<close>)\<close>

datatype ChallengeType = imageT | codeT | copywritingT

text \<open>The fields of the screen's level that \<open>handleGenerate\<close> reads; \<open>type_Api\<close> is
  \<open>None\<close> for a level without a \<open>type\<close> (or with one that is none of the three).\<close>

record ApiLevel =
  id_Api :: string
  type_Api :: "ChallengeType option"
  passingScore_Api :: int
  difficulty_Api :: Difficulty

datatype Tab = target | attempt

datatype jsError = Error string

text \<open>
  The component state (\<open>useState\<close>), the game store and the hint ledger the screen
  works on, and what it sends out: the prompts passed to
  \<open>AIProxyClient.generateImage\<close>, the alerts shown and the errors logged.
\<close>

record Session =
  prompt :: jsstring
  isGenerating :: bool
  generatedImage :: "string option"
  activeTab :: Tab
  showResult :: bool
  lastScore :: int
  promptError :: "string option"
  store :: GameState
  ledger :: HintLedger
  proxyCalls :: "jsstring list"
  alerts :: "(string \<times> string) list"
  logged :: "jsError list"

text \<open>What the outside world answers to one attempt: the outcome of
  \<open>AIProxyClient.generateImage\<close> (an error thrown, or a response with its optional
  \<open>imageUrl\<close>) and the value of \<open>Math.floor(Math.random() * 30)\<close>.\<close>

record Env =
  generateImage :: "jsError + string option"
  randomFloor30 :: int

datatype Begun = Rejected Session | Started Session

text \<open>\<open>handleGenerate\<close> up to its suspension point: the prompt check, the two state
  updates and, for an image level, the request to the proxy.\<close>

definition handleGenerate_begin :: "ApiLevel \<Rightarrow> Session \<Rightarrow> Begun" where
  "handleGenerate_begin level s =
     (if trim (prompt s) = [] then
        Rejected (s\<lparr>promptError := Some ''Please enter a prompt''\<rparr>)
      else
        (let s1 = s\<lparr>promptError := None, isGenerating := True\<rparr>
         in Started (if type_Api level = Some imageT
                     then s1\<lparr>proxyCalls := proxyCalls s1 @ [prompt s]\<rparr>
                     else s1)))"

definition tryAgainMessage :: "int \<Rightarrow> int \<Rightarrow> ScoreBreakdown \<Rightarrow> ApiLevel \<Rightarrow> string" where
  "tryAgainMessage final score penaltyDetails level =
     (let message = ''Your score: '' @ showInt final @ ''%'';
          message = (if hintsUsed penaltyDetails > 0
                     then message @ '' (Base: '' @ showInt score @ ''%, -''
                            @ showInt (penaltyPoints penaltyDetails) @ '' from ''
                            @ showInt (hintsUsed penaltyDetails) @ '' hint''
                            @ (if hintsUsed penaltyDetails > 1 then ''s'' else [])
                            @ '')''
                     else message)
      in message @ ''. You need '' @ showInt (passingScore_Api level) @ ''% to pass.'')"

text \<open>The rest of the \<open>try\<close> block once the score is known. \<open>getPenaltyDetails\<close> and
  the store action \<open>completeLevel\<close> are parameters.\<close>

definition applyScore ::
  "(HintLedger \<Rightarrow> string \<Rightarrow> int \<Rightarrow> int \<Rightarrow> Difficulty \<Rightarrow> ScoreBreakdown)
     \<Rightarrow> (string \<Rightarrow> GameState \<Rightarrow> GameState) \<Rightarrow> ApiLevel \<Rightarrow> int \<Rightarrow> Session \<Rightarrow> Session" where
  "applyScore penalty completeLevel level score s =
     (let penaltyDetails = penalty (ledger s) (id_Api level) score
                             (passingScore_Api level) (difficulty_Api level);
          final = finalScore penaltyDetails;
          s1 = s\<lparr>lastScore := final\<rparr>
      in if final \<ge> passingScore_Api level then
           s1\<lparr>showResult := True, store := completeLevel (id_Api level) (store s1)\<rparr>
         else
           s1\<lparr>store := loseLife (store s1),
              alerts := alerts s1 @ [(''Try Again'', tryAgainMessage final score penaltyDetails level)]\<rparr>)"

definition catchError :: "jsError \<Rightarrow> Session \<Rightarrow> Session" where
  "catchError e s =
     s\<lparr>logged := logged s @ [e],
       promptError := Some ''Something went wrong. Please try again.''\<rparr>"

text \<open>The awaited part of the \<open>try\<close> block: the score each level type is given,
  or the error \<open>AIProxyClient.generateImage\<close> throws. An image level stores the
  returned image and switches the tab before it is scored.\<close>

definition evaluate :: "ApiLevel \<Rightarrow> Env \<Rightarrow> Session \<Rightarrow> jsError + (int \<times> Session)" where
  "evaluate level env s =
     (case type_Api level of
        Some imageT \<Rightarrow>
          (case generateImage env of
             Inl e \<Rightarrow> Inl e
           | Inr url \<Rightarrow>
               Inr (randomFloor30 env + 70, s\<lparr>generatedImage := url, activeTab := attempt\<rparr>))
      | Some codeT \<Rightarrow> Inr (100, s)
      | Some copywritingT \<Rightarrow> Inr (85, s)
      | None \<Rightarrow> Inr (0, s))"

text \<open>\<open>handleGenerate\<close> from its suspension point on: the awaited call settles, the
  score is penalised and judged or the error is caught, and the \<open>finally\<close> block
  runs last.\<close>

definition handleGenerate_resume ::
  "(HintLedger \<Rightarrow> string \<Rightarrow> int \<Rightarrow> int \<Rightarrow> Difficulty \<Rightarrow> ScoreBreakdown)
     \<Rightarrow> (string \<Rightarrow> GameState \<Rightarrow> GameState) \<Rightarrow> ApiLevel \<Rightarrow> Env \<Rightarrow> Session \<Rightarrow> Session" where
  "handleGenerate_resume penalty completeLevel level env s =
     (let s' = (case evaluate level env s of
                  Inl e \<Rightarrow> catchError e s
                | Inr (score, s1) \<Rightarrow> applyScore penalty completeLevel level score s1)
      in s'\<lparr>isGenerating := False\<rparr>)"

definition handleGenerate ::
  "(HintLedger \<Rightarrow> string \<Rightarrow> int \<Rightarrow> int \<Rightarrow> Difficulty \<Rightarrow> ScoreBreakdown)
     \<Rightarrow> (string \<Rightarrow> GameState \<Rightarrow> GameState) \<Rightarrow> ApiLevel \<Rightarrow> Env \<Rightarrow> Session \<Rightarrow> Session" where
  "handleGenerate penalty completeLevel level env s =
     (case handleGenerate_begin level s of
        Rejected s' \<Rightarrow> s'
      | Started s' \<Rightarrow> handleGenerate_resume penalty completeLevel level env s')"

definition handlePromptChange :: "jsstring \<Rightarrow> Session \<Rightarrow> Session" where
  "handlePromptChange text s =
     (let s1 = s\<lparr>prompt := text\<rparr>
      in case promptError s of
           Some (c # cs) \<Rightarrow> s1\<lparr>promptError := None\<rparr>
         | _ \<Rightarrow> s1)"

section \<open>Attempts in flight\<close>

text \<open>
  \<open>handleGenerate\<close> is asynchronous: between its two halves other handlers of the
  screen may run. A configuration pairs the session with the number of calls of
  \<open>handleGenerate\<close> that are suspended; an event is a press of the generate button,
  the settling of one suspended call, or an edit of the prompt.
\<close>

datatype Event = Submit | Settle Env | Edit jsstring

fun fire ::
  "(HintLedger \<Rightarrow> string \<Rightarrow> int \<Rightarrow> int \<Rightarrow> Difficulty \<Rightarrow> ScoreBreakdown)
     \<Rightarrow> (string \<Rightarrow> GameState \<Rightarrow> GameState) \<Rightarrow> ApiLevel \<Rightarrow> Event
     \<Rightarrow> Session \<times> nat \<Rightarrow> Session \<times> nat" where
  "fire penalty completeLevel level Submit (s, n) =
     (case handleGenerate_begin level s of
        Rejected s' \<Rightarrow> (s', n)
      | Started s' \<Rightarrow> (s', Suc n))"
| "fire penalty completeLevel level (Settle env) (s, n) =
     (if n = 0 then (s, n)
      else (handleGenerate_resume penalty completeLevel level env s, n - 1))"
| "fire penalty completeLevel level (Edit text) (s, n) = (handlePromptChange text s, n)"

definition run ::
  "(HintLedger \<Rightarrow> string \<Rightarrow> int \<Rightarrow> int \<Rightarrow> Difficulty \<Rightarrow> ScoreBreakdown)
     \<Rightarrow> (string \<Rightarrow> GameState \<Rightarrow> GameState) \<Rightarrow> ApiLevel \<Rightarrow> Event list
     \<Rightarrow> Session \<times> nat \<Rightarrow> Session \<times> nat" where
  "run penalty completeLevel level events c = fold (fire penalty completeLevel level) events c"

text \<open>The same machine when the caller does not invoke \<open>handleGenerate\<close> while
  \<open>isGenerating\<close> is set (a generate button disabled while loading).\<close>

fun fireGated ::
  "(HintLedger \<Rightarrow> string \<Rightarrow> int \<Rightarrow> int \<Rightarrow> Difficulty \<Rightarrow> ScoreBreakdown)
     \<Rightarrow> (string \<Rightarrow> GameState \<Rightarrow> GameState) \<Rightarrow> ApiLevel \<Rightarrow> Event
     \<Rightarrow> Session \<times> nat \<Rightarrow> Session \<times> nat" where
  "fireGated penalty completeLevel level Submit (s, n) =
     (if isGenerating s then (s, n) else fire penalty completeLevel level Submit (s, n))"
| "fireGated penalty completeLevel level (Settle env) (s, n) =
     fire penalty completeLevel level (Settle env) (s, n)"
| "fireGated penalty completeLevel level (Edit text) (s, n) =
     fire penalty completeLevel level (Edit text) (s, n)"

definition runGated ::
  "(HintLedger \<Rightarrow> string \<Rightarrow> int \<Rightarrow> int \<Rightarrow> Difficulty \<Rightarrow> ScoreBreakdown)
     \<Rightarrow> (string \<Rightarrow> GameState \<Rightarrow> GameState) \<Rightarrow> ApiLevel \<Rightarrow> Event list
     \<Rightarrow> Session \<times> nat \<Rightarrow> Session \<times> nat" where
  "runGated penalty completeLevel level events c =
     fold (fireGated penalty completeLevel level) events c"

section \<open>Sample inputs\<close>

definition sampleLevel :: "ChallengeType \<Rightarrow> ApiLevel" where
  "sampleLevel t =
     \<lparr>id_Api = ''easy-001'', type_Api = Some t, passingScore_Api = 75, difficulty_Api = easy\<rparr>"

definition sampleSession :: "jsstring \<Rightarrow> HintLedger \<Rightarrow> Session" where
  "sampleSession text hints =
     \<lparr>prompt = text, isGenerating = False, generatedImage = None, activeTab = target,
      showResult = False, lastScore = 0, promptError = None,
      store = \<lparr>currentLives = 3, maxLives = 3, levelProgress = Map.empty,
               totalScore = 0, achievements = []\<rparr>,
      ledger = hints, proxyCalls = [], alerts = [], logged = []\<rparr>"

text \<open>A ledger in which two of the three hints of \<open>easy-001\<close> are revealed.\<close>

definition twoHints :: HintLedger where
  "twoHints = snd (revealMany 3 [10, 20] ''easy-001'' (reset ''easy-001'' Map.empty))"

definition sampleEnv :: "jsError + string option \<Rightarrow> int \<Rightarrow> Env" where
  "sampleEnv r k = \<lparr>generateImage = r, randomFloor30 = k\<rparr>"

text \<open>A \<open>completeLevel\<close> for the samples: it marks the level completed.\<close>

definition sampleComplete :: "string \<Rightarrow> GameState \<Rightarrow> GameState" where
  "sampleComplete lid g =
     (case levelProgress g lid of
        None \<Rightarrow> g
      | Some p \<Rightarrow> g\<lparr>levelProgress := (levelProgress g)(lid \<mapsto> p\<lparr>completed := True\<rparr>)\<rparr>)"

definition blankPrompt :: jsstring where
  "blankPrompt = [0x20, 0x09, 0x0A, 0xA0]"

definition somePrompt :: jsstring where
  "somePrompt = [0x61, 0x20, 0x63, 0x61, 0x74]"

text \<open>At most one call is suspended, and \<open>isGenerating\<close> is set exactly while one
  is.\<close>

fun inFlightInvariant :: "Session \<times> nat \<Rightarrow> bool" where
  "inFlightInvariant (s, n) = (n \<le> 1 \<and> (isGenerating s \<longleftrightarrow> n = 1))"

section \<open>Array and store lemmas\<close>

lemma findIndex_find:
  "find P xs = Some x \<Longrightarrow> 0 \<le> findIndex P xs \<and> xs ! nat (findIndex P xs) = x"
proof (induction xs)
  case Nil
  then show ?case by simp
next
  case (Cons a xs)
  show ?case
  proof (cases "P a")
    case True
    with Cons.prems show ?thesis by simp
  next
    case False
    with Cons have ih: "0 \<le> findIndex P xs \<and> xs ! nat (findIndex P xs) = x" by simp
    with False show ?thesis by (simp add: Let_def nat_add_distrib)
  qed
qed

lemma find_key: "find (\<lambda>l. f l = k) xs = Some x \<Longrightarrow> f x = k \<and> x \<in> set xs"
  by (induction xs) (auto split: if_splits)

lemma at_index_mem: "at_index xs i = Some y \<Longrightarrow> y \<in> set xs"
  by (auto simp: at_index_def split: if_splits)

text \<open>With distinct keys, the element after the first match has another key.\<close>

lemma next_differs:
  assumes d: "distinct (map f xs)" and fd: "find (\<lambda>l. f l = k) xs = Some x"
    and nx: "at_index xs (findIndex (\<lambda>l. f l = k) xs + 1) = Some y"
  shows "f y \<noteq> k"
proof -
  let ?i = "findIndex (\<lambda>l. f l = k) xs"
  from findIndex_find[OF fd] have i0: "0 \<le> ?i" and xi: "xs ! nat ?i = x" by auto
  from nx i0 have lt: "nat ?i + 1 < length xs" and y: "y = xs ! (nat ?i + 1)"
    by (auto simp: at_index_def nat_add_distrib split: if_splits)
  from find_key[OF fd] have fx: "f x = k" by simp
  have "map f xs ! nat ?i \<noteq> map f xs ! (nat ?i + 1)"
    using d lt by (simp add: nth_eq_iff_index_eq del: nth_map)
  with lt xi y fx show ?thesis by simp
qed

lemma distinct_LEVELS: "distinct (map id_Level LEVELS)"
  by (simp add: LEVELS_def mkLevel_def)

lemma hasAllLevels_lookup:
  "hasAllLevels state \<Longrightarrow> l \<in> set LEVELS \<Longrightarrow> \<exists>p. levelProgress state (id_Level l) = Some p"
  by (auto simp: hasAllLevels_def list_all_iff)

lemma hasAllLevels_initial: "hasAllLevels initialState"
  by (simp add: hasAllLevels_def initialState_def createDefaultProgress_def LEVELS_def
        mkLevel_def upt_rec)

lemma first_level: "find (\<lambda>l. id_Level l = ''easy-001'') LEVELS = Some (mkLevel ''easy-001'' easy 60 3)"
  by (simp add: LEVELS_def mkLevel_def)

lemma first_progress:
  "levelProgress initialState ''easy-001'' =
     Some \<lparr>levelId = ''easy-001'', isUnlocked = True, bestScore = 0, attempts = 0,
           completed = False, lastPlayedAt = None\<rparr>"
  by (simp add: initialState_def createDefaultProgress_def LEVELS_def mkLevel_def upt_rec)

lemma second_level: "getNextLevel ''easy-001'' = Some (mkLevel ''easy-002'' easy 60 3)"
  by (simp add: getNextLevel_def at_index_def LEVELS_def mkLevel_def)

text \<open>On a level of \<open>LEVELS\<close> and a state with an entry for every level the update
  succeeds.\<close>

lemma updateLevelProgress_succeeds:
  assumes lv: "find (\<lambda>l. id_Level l = lid) LEVELS = Some lvl" and wf: "hasAllLevels state"
  shows "\<exists>state'. updateLevelProgress now lid score state = Inr state'"
proof -
  from find_key[OF lv] have ll: "id_Level lvl = lid" and lm: "lvl \<in> set LEVELS" by auto
  from hasAllLevels_lookup[OF wf lm] ll obtain cur where cur: "levelProgress state lid = Some cur"
    by auto
  show ?thesis
  proof (cases "at_index LEVELS (findIndex (\<lambda>l. id_Level l = lid) LEVELS + 1)")
    case None
    with cur lv show ?thesis by (simp add: updateLevelProgress_def Let_def)
  next
    case (Some nl)
    from at_index_mem[OF Some] hasAllLevels_lookup[OF wf] obtain np
      where "levelProgress state (id_Level nl) = Some np" by blast
    with cur lv Some show ?thesis by (simp add: updateLevelProgress_def Let_def)
  qed
qed

text \<open>The update keeps an entry for every level, so the assumption on the state holds
  along every run of the store that starts in \<open>initialState\<close>.\<close>

lemma updateLevelProgress_keeps_levels:
  assumes "updateLevelProgress now lid score state = Inr state'" "hasAllLevels state"
  shows "hasAllLevels state'"
  using assms
  by (auto simp: updateLevelProgress_def hasAllLevels_def list_all_iff Let_def
           split: option.splits if_splits)

section \<open>Recording an attempt\<close>

text \<open>
  Claim C5. For a level of \<open>LEVELS\<close> and a state that has a progress entry for every
  level, \<open>updateLevelProgress\<close> succeeds, sets the level's best score to the maximum
  of the old best score and the score, adds one to its attempts, sets \<open>completed\<close> to
  the old flag or \<open>score \<ge> passingScore\<close> (so a completed level stays completed), and
  sets \<open>isUnlocked\<close> of the next level in \<open>LEVELS\<close> exactly when the score reaches the
  passing score, leaving that entry as it was otherwise.
\<close>

theorem updateLevelProgress_records:
  assumes lv: "find (\<lambda>l. id_Level l = lid) LEVELS = Some lvl"
    and wf: "hasAllLevels state"
  shows "\<exists>cur state' p.
           levelProgress state lid = Some cur
         \<and> updateLevelProgress now lid score state = Inr state'
         \<and> levelProgress state' lid = Some p
         \<and> bestScore p = max (bestScore cur) score
         \<and> attempts p = attempts cur + 1
         \<and> completed p = (completed cur \<or> score \<ge> passingScore lvl)
         \<and> (completed cur \<longrightarrow> completed p)
         \<and> (case getNextLevel lid of
               None \<Rightarrow> True
             | Some nl \<Rightarrow>
                 (\<exists>np. levelProgress state (id_Level nl) = Some np
                     \<and> levelProgress state' (id_Level nl) =
                         Some (if score \<ge> passingScore lvl
                               then np\<lparr>isUnlocked := True\<rparr> else np)))"
proof -
  from find_key[OF lv] have ll: "id_Level lvl = lid" and lm: "lvl \<in> set LEVELS" by auto
  from hasAllLevels_lookup[OF wf lm] ll obtain cur where cur: "levelProgress state lid = Some cur"
    by auto
  show ?thesis
  proof (cases "getNextLevel lid")
    case None
    then have nx: "at_index LEVELS (findIndex (\<lambda>l. id_Level l = lid) LEVELS + 1) = None"
      by (simp add: getNextLevel_def)
    show ?thesis using cur lv nx None
      by (auto simp: updateLevelProgress_def Let_def)
  next
    case (Some nl)
    then have nx: "at_index LEVELS (findIndex (\<lambda>l. id_Level l = lid) LEVELS + 1) = Some nl"
      by (simp add: getNextLevel_def)
    from at_index_mem[OF nx] hasAllLevels_lookup[OF wf] obtain np
      where np: "levelProgress state (id_Level nl) = Some np" by blast
    from next_differs[OF distinct_LEVELS lv nx] have ne: "id_Level nl \<noteq> lid" .
    show ?thesis using cur lv nx Some np ne
      by (auto simp: updateLevelProgress_def Let_def)
  qed
qed

theorem updateLevelProgress_records_witness:
  "\<exists>state' p q.
      updateLevelProgress ''2026-01-05T10:00:00.000Z'' ''easy-001'' 60 initialState = Inr state'
    \<and> levelProgress state' ''easy-001'' = Some p
    \<and> bestScore p = 60 \<and> attempts p = 1 \<and> completed p
    \<and> levelProgress state' ''easy-002'' = Some q \<and> isUnlocked q"
proof -
  from updateLevelProgress_records[OF first_level hasAllLevels_initial,
         of "''2026-01-05T10:00:00.000Z''" 60]
  obtain cur state' p where
    c: "levelProgress initialState ''easy-001'' = Some cur"
    and u: "updateLevelProgress ''2026-01-05T10:00:00.000Z'' ''easy-001'' 60 initialState = Inr state'"
    and p: "levelProgress state' ''easy-001'' = Some p"
      "bestScore p = max (bestScore cur) 60" "attempts p = attempts cur + 1"
      "completed p = (completed cur \<or> 60 \<ge> passingScore (mkLevel ''easy-001'' easy 60 3))"
    and n: "case getNextLevel ''easy-001'' of
               None \<Rightarrow> True
             | Some nl \<Rightarrow>
                 (\<exists>np. levelProgress initialState (id_Level nl) = Some np
                     \<and> levelProgress state' (id_Level nl) =
                         Some (if 60 \<ge> passingScore (mkLevel ''easy-001'' easy 60 3)
                               then np\<lparr>isUnlocked := True\<rparr> else np))"
    by blast
  from c first_progress have cur: "bestScore cur = 0" "attempts cur = 0" by auto
  from n second_level obtain np where
    "levelProgress state' ''easy-002'' = Some (np\<lparr>isUnlocked := True\<rparr>)"
    by (auto simp: mkLevel_def)
  with u p cur show ?thesis by (auto simp: mkLevel_def)
qed

text \<open>
  Claim C10. A successful \<open>updateLevelProgress(levelId, score)\<close> leaves the lives, the
  maximum of lives and the achievements as they were, and leaves the progress entry of
  every level other than \<open>levelId\<close> and the next level of \<open>LEVELS\<close> as it was.
\<close>

theorem updateLevelProgress_frame:
  assumes "updateLevelProgress now lid score state = Inr state'"
  shows "currentLives state' = currentLives state
       \<and> maxLives state' = maxLives state
       \<and> achievements state' = achievements state
       \<and> (\<forall>k. k \<noteq> lid \<longrightarrow> (\<forall>nl. getNextLevel lid = Some nl \<longrightarrow> k \<noteq> id_Level nl)
              \<longrightarrow> levelProgress state' k = levelProgress state k)"
  using assms
  by (auto simp: updateLevelProgress_def getNextLevel_def Let_def
           split: option.splits if_splits)

theorem updateLevelProgress_frame_witness:
  "\<exists>state'.
      updateLevelProgress ''2026-01-05T10:00:00.000Z'' ''easy-001'' 60 initialState = Inr state'
    \<and> currentLives state' = 3 \<and> maxLives state' = 3 \<and> achievements state' = []
    \<and> levelProgress state' ''hard-011'' = levelProgress initialState ''hard-011''"
proof -
  from updateLevelProgress_succeeds[OF first_level hasAllLevels_initial] obtain state'
    where u: "updateLevelProgress ''2026-01-05T10:00:00.000Z'' ''easy-001'' 60 initialState = Inr state'"
    by blast
  from updateLevelProgress_frame[OF u] second_level
  have "currentLives state' = currentLives initialState"
    "maxLives state' = maxLives initialState"
    "achievements state' = achievements initialState"
    "levelProgress state' ''hard-011'' = levelProgress initialState ''hard-011''"
    by (auto simp: mkLevel_def)
  with u show ?thesis by (simp add: initialState_def)
qed

section \<open>Revealing hints\<close>

lemma find_first_missing:
  "find (\<lambda>i. \<not> i < k) [0 ..< m] = (if (k::nat) < m then Some k else None)"
proof (cases "k < m")
  case True
  have "find (\<lambda>i. \<not> i < k) [0 ..< m] = Some k"
    unfolding find_Some_iff
    by (rule exI[of _ k]) (use True in auto)
  with True show ?thesis by simp
next
  case False
  then show ?thesis by (auto simp: find_None_iff)
qed

text \<open>When the indices \<open>0, \<dots>, k - 1\<close> are revealed, the next reveal is \<open>k\<close>, or
  nothing once \<open>k\<close> has reached the number of hints.\<close>

lemma revealNext_step:
  assumes "hl lid = Some r" "map fst r = [0 ..< k]"
  shows "revealNext m now lid hl =
           (if k < m then (HintIndex k, hl(lid \<mapsto> r @ [(k, now)]))
            else (NoMoreHints, hl))"
  using assms by (simp add: revealNext_def find_first_missing)

lemma revealMany_run:
  assumes "hl lid = Some r" "map fst r = [0 ..< k]" "k \<le> m"
  shows "fst (revealMany m stamps lid hl)
           = map HintIndex [k ..< min (k + length stamps) m]
             @ replicate (k + length stamps - m) NoMoreHints
       \<and> (\<exists>r'. snd (revealMany m stamps lid hl) lid = Some r'
              \<and> map fst r' = [0 ..< min (k + length stamps) m])
       \<and> snd (revealMany m stamps lid hl)
           = snd (revealMany m (take (m - k) stamps) lid hl)"
  using assms
proof (induction stamps arbitrary: hl r k)
  case Nil
  then show ?case by simp
next
  case (Cons now stamps)
  show ?case
  proof (cases "k < m")
    case True
    let ?hl = "hl(lid \<mapsto> r @ [(k, now)])"
    have st: "revealNext m now lid hl = (HintIndex k, ?hl)"
      using revealNext_step[where hl = hl and lid = lid and r = r and k = k, OF Cons.prems(1,2)]
        True by simp
    have a: "?hl lid = Some (r @ [(k, now)])" by simp
    have b: "map fst (r @ [(k, now)]) = [0 ..< Suc k]" using Cons.prems(2) by simp
    have c: "Suc k \<le> m" using True by simp
    note ih = Cons.IH[where hl = ?hl and r = "r @ [(k, now)]" and k = "Suc k", OF a b c]
    have u: "[k ..< min (Suc k + length stamps) m] = k # [Suc k ..< min (Suc k + length stamps) m]"
      using True by (simp add: upt_conv_Cons)
    have t: "take (m - k) (now # stamps) = now # take (m - Suc k) stamps"
    proof -
      from True have "m - k = Suc (m - Suc k)" by simp
      then show ?thesis by simp
    qed
    have e: "(\<lambda>a. if a = lid then Some (r @ [(k, now)]) else hl a) = ?hl"
      by (rule ext) simp
    show ?thesis
      unfolding t using ih st u by (auto simp: split_beta e)
  next
    case False
    with Cons.prems have kt: "k = m" by simp
    have st: "revealNext m now lid hl = (NoMoreHints, hl)"
      using revealNext_step[where hl = hl and lid = lid and r = r and k = k, OF Cons.prems(1,2)]
        False by simp
    note ih = Cons.IH[where hl = hl and r = r and k = k, OF Cons.prems]
    show ?thesis using ih st kt by (auto simp: split_beta)
  qed
qed

text \<open>
  Claim C9. After \<open>reset\<close>, successive calls of \<open>revealNext\<close> for a level with \<open>m\<close>
  hints return the indices \<open>0, 1, \<dots>\<close> in ascending order, each once; every call after
  the \<open>m\<close>-th returns \<open>NoMoreHints\<close>; the usage count is the number of calls, capped
  at \<open>m\<close>; and the ledger after any number of calls is the ledger after the first
  \<open>m\<close> of them.
\<close>

theorem reveal_sequence:
  "fst (revealMany m stamps lid (reset lid hl))
     = map HintIndex [0 ..< min (length stamps) m]
       @ replicate (length stamps - m) NoMoreHints
   \<and> usageCount lid (snd (revealMany m stamps lid (reset lid hl)))
       = min (length stamps) m
   \<and> snd (revealMany m stamps lid (reset lid hl))
       = snd (revealMany m (take m stamps) lid (reset lid hl))"
proof -
  have a: "(reset lid hl) lid = Some []" by (simp add: reset_def)
  have b: "map fst ([] :: HintUsageRecord) = [0 ..< 0]" by simp
  from revealMany_run[where hl = "reset lid hl" and lid = lid and r = "[]" and k = 0
         and m = m and stamps = stamps, OF a b]
  obtain r' where
    1: "fst (revealMany m stamps lid (reset lid hl))
          = map HintIndex [0 ..< min (length stamps) m]
            @ replicate (length stamps - m) NoMoreHints"
    and 2: "snd (revealMany m stamps lid (reset lid hl)) lid = Some r'"
    and 3: "map fst r' = [0 ..< min (length stamps) m]"
    and 4: "snd (revealMany m stamps lid (reset lid hl))
          = snd (revealMany m (take m stamps) lid (reset lid hl))"
    by auto
  from 3 have "length r' = min (length stamps) m"
    by (metis length_map length_upt minus_nat.diff_0)
  with 2 have "usageCount lid (snd (revealMany m stamps lid (reset lid hl)))
       = min (length stamps) m"
    by (simp add: usageCount_def)
  with 1 4 show ?thesis by simp
qed

theorem reveal_sequence_witness:
  "fst (revealMany 3 [10, 20, 30, 40, 50] ''easy-001'' (reset ''easy-001'' Map.empty))
     = [HintIndex 0, HintIndex 1, HintIndex 2, NoMoreHints, NoMoreHints]
   \<and> usageCount ''easy-001''
        (snd (revealMany 3 [10, 20, 30, 40, 50] ''easy-001'' (reset ''easy-001'' Map.empty))) = 3"
proof -
  note r = reveal_sequence[of 3 "[10, 20, 30, 40, 50]" "''easy-001''" Map.empty]
  have a: "fst (revealMany 3 [10, 20, 30, 40, 50] ''easy-001'' (reset ''easy-001'' Map.empty))
     = [HintIndex 0, HintIndex 1, HintIndex 2, NoMoreHints, NoMoreHints]"
    using r[THEN conjunct1] by (simp add: upt_rec numeral_2_eq_2 del: revealMany.simps)
  have b: "usageCount ''easy-001''
        (snd (revealMany 3 [10, 20, 30, 40, 50] ''easy-001'' (reset ''easy-001'' Map.empty))) = 3"
    using r[THEN conjunct2, THEN conjunct1] by (simp del: revealMany.simps)
  from a b show ?thesis by (rule conjI)
qed

lemma twoHints_usage: "usageCount ''easy-001'' twoHints = 2"
  by (simp add: twoHints_def usageCount_def revealNext_def reset_def upt_rec)

section \<open>The hint penalty\<close>

text \<open>
  Claim C1. For a raw score between 0 and 100 and a number of hints that is not
  negative, the penalty is \<open>min (hintsUsed * penaltyPerHint) rawScore\<close>, the final score
  is \<open>clamp (rawScore - penaltyPoints) 0 100\<close>, and the final score lies between 0 and
  100 and does not exceed the raw score, for every difficulty.
\<close>

theorem penalty_bounds:
  assumes "0 \<le> raw" "raw \<le> 100" "0 \<le> hints"
  shows "penaltyPoints (compute raw passing d hints) = min (hints * penaltyPerHintFor d) raw
       \<and> finalScore (compute raw passing d hints)
           = clamp (raw - penaltyPoints (compute raw passing d hints)) 0 100
       \<and> 0 \<le> finalScore (compute raw passing d hints)
       \<and> finalScore (compute raw passing d hints) \<le> 100
       \<and> finalScore (compute raw passing d hints) \<le> raw"
proof -
  have p: "0 \<le> penaltyPerHintFor d" by (cases d) simp_all
  with assms have "0 \<le> hints * penaltyPerHintFor d" by simp
  with assms show ?thesis
    by (simp add: compute_def Let_def clamp_def min_def max_def)
qed

theorem penalty_bounds_witness:
  "penaltyPoints (compute 90 60 easy 2) = 16 \<and> finalScore (compute 90 60 easy 2) = 74
   \<and> penaltyPoints (compute 20 60 easy 10) = 20 \<and> finalScore (compute 20 60 easy 10) = 0"
  using penalty_bounds[of 90 2 60 easy] penalty_bounds[of 20 10 60 easy]
  by (simp add: clamp_def)

text \<open>
  Claim C4. With no hint used the final score is the raw score, for every raw score
  between 0 and 100 and every difficulty; so it is for a level whose hints have just been
  reset.
\<close>

theorem zero_hints_identity:
  assumes "0 \<le> raw" "raw \<le> 100"
  shows "finalScore (compute raw passing d 0) = raw
       \<and> finalScore (getPenaltyDetails (reset lid hl) lid raw passing d) = raw"
  using assms
  by (simp add: getPenaltyDetails_def usageCount_def reset_def compute_def Let_def clamp_def)

theorem zero_hints_identity_witness:
  "finalScore (compute 73 60 hard 0) = 73
   \<and> finalScore (getPenaltyDetails (reset ''hard-011'' Map.empty) ''hard-011'' 73 80 hard) = 73"
  using zero_hints_identity[of 73 60 hard "''hard-011''" Map.empty]
    zero_hints_identity[of 73 80 hard "''hard-011''" Map.empty]
  by simp

section \<open>Submitting a prompt\<close>

lemma dropWhile_all_iff: "(\<forall>x \<in> set (dropWhile P xs). P x) \<longleftrightarrow> (\<forall>x \<in> set xs. P x)"
  by (induction xs) auto

lemma trim_empty_iff: "trim s = [] \<longleftrightarrow> (\<forall>c \<in> set s. isWhiteSpace c)"
  by (simp add: trim_def dropWhile_all_iff)

lemma blankPrompt_white: "\<forall>c \<in> set blankPrompt. isWhiteSpace c"
  by (simp add: blankPrompt_def isWhiteSpace_def)

lemma somePrompt_trim: "trim somePrompt \<noteq> []"
  by (simp add: trim_empty_iff somePrompt_def isWhiteSpace_def)

lemma begin_keeps:
  assumes "handleGenerate_begin level s = Started s0"
  shows "store s0 = store s \<and> ledger s0 = ledger s \<and> alerts s0 = alerts s
       \<and> showResult s0 = showResult s \<and> isGenerating s0 \<and> trim (prompt s) \<noteq> []"
  using assms by (auto simp: handleGenerate_begin_def Let_def split: if_splits)

lemma evaluate_keeps:
  assumes "evaluate level env s0 = Inr (raw, s1)"
  shows "store s1 = store s0 \<and> ledger s1 = ledger s0 \<and> alerts s1 = alerts s0
       \<and> showResult s1 = showResult s0"
  using assms
  by (auto simp: evaluate_def split: option.splits ChallengeType.splits sum.splits)

lemma handleGenerate_scored:
  assumes b: "handleGenerate_begin level s = Started s0"
    and e: "evaluate level env s0 = Inr (raw, s1)"
  shows "handleGenerate penalty completeLevel level env s
           = (applyScore penalty completeLevel level raw s1)\<lparr>isGenerating := False\<rparr>"
  using b e by (simp add: handleGenerate_def handleGenerate_resume_def Let_def)

lemma sample_begin:
  "handleGenerate_begin (sampleLevel copywritingT) (sampleSession somePrompt hl)
     = Started ((sampleSession somePrompt hl)\<lparr>promptError := None, isGenerating := True\<rparr>)"
  using somePrompt_trim
  by (simp add: handleGenerate_begin_def sampleLevel_def sampleSession_def Let_def)

lemma sample_evaluate:
  "evaluate (sampleLevel copywritingT) env s = Inr (85, s)"
  by (simp add: evaluate_def sampleLevel_def)

text \<open>
  Claim C7. A prompt that is empty or consists of white space only is rejected before
  anything is sent to the proxy: \<open>handleGenerate\<close> sets the validation message
  \<open>Please enter a prompt\<close> and changes nothing else, so the requests sent, the store
  (lives and progress), the hint ledger and the last score are as before.
\<close>

theorem blank_prompt_rejected:
  assumes "\<forall>c \<in> set (prompt s). isWhiteSpace c"
  shows "handleGenerate_begin level s = Rejected (s\<lparr>promptError := Some ''Please enter a prompt''\<rparr>)
       \<and> handleGenerate penalty completeLevel level env s
           = s\<lparr>promptError := Some ''Please enter a prompt''\<rparr>
       \<and> proxyCalls (handleGenerate penalty completeLevel level env s) = proxyCalls s
       \<and> store (handleGenerate penalty completeLevel level env s) = store s
       \<and> ledger (handleGenerate penalty completeLevel level env s) = ledger s
       \<and> lastScore (handleGenerate penalty completeLevel level env s) = lastScore s
       \<and> isGenerating (handleGenerate penalty completeLevel level env s) = isGenerating s"
proof -
  from assms have "trim (prompt s) = []" by (simp add: trim_empty_iff)
  then show ?thesis by (simp add: handleGenerate_def handleGenerate_begin_def)
qed

theorem blank_prompt_rejected_witness:
  "handleGenerate getPenaltyDetails sampleComplete (sampleLevel imageT)
      (sampleEnv (Inr (Some ''img'')) 0) (sampleSession blankPrompt twoHints)
     = (sampleSession blankPrompt twoHints)\<lparr>promptError := Some ''Please enter a prompt''\<rparr>"
  using blank_prompt_rejected[of "sampleSession blankPrompt twoHints" "sampleLevel imageT"
          getPenaltyDetails sampleComplete "sampleEnv (Inr (Some ''img'')) 0"]
    blankPrompt_white
  by (simp add: sampleSession_def)

text \<open>
  Claim C6. When the call to the proxy throws, \<open>handleGenerate\<close> logs the error, shows
  the message \<open>Something went wrong. Please try again.\<close> and clears \<open>isGenerating\<close>;
  the store (lives and progress), the hint ledger, the last score, the result flag and
  the alerts are as before, and a further \<open>handleGenerate\<close> on the resulting session
  starts a new attempt.
\<close>

theorem evaluator_failure:
  assumes "trim (prompt s) \<noteq> []" "type_Api level = Some imageT" "generateImage env = Inl e"
  shows "handleGenerate penalty completeLevel level env s
           = s\<lparr>promptError := Some ''Something went wrong. Please try again.'',
               isGenerating := False,
               proxyCalls := proxyCalls s @ [prompt s],
               logged := logged s @ [e]\<rparr>
       \<and> store (handleGenerate penalty completeLevel level env s) = store s
       \<and> ledger (handleGenerate penalty completeLevel level env s) = ledger s
       \<and> lastScore (handleGenerate penalty completeLevel level env s) = lastScore s
       \<and> showResult (handleGenerate penalty completeLevel level env s) = showResult s
       \<and> alerts (handleGenerate penalty completeLevel level env s) = alerts s
       \<and> \<not> isGenerating (handleGenerate penalty completeLevel level env s)
       \<and> (\<exists>s2. handleGenerate_begin level (handleGenerate penalty completeLevel level env s)
                 = Started s2)"
  using assms
  by (simp add: handleGenerate_def handleGenerate_begin_def handleGenerate_resume_def
        evaluate_def catchError_def Let_def)

theorem evaluator_failure_witness:
  "handleGenerate getPenaltyDetails sampleComplete (sampleLevel imageT)
      (sampleEnv (Inl (Error ''timeout of 30000ms exceeded'')) 0) (sampleSession somePrompt twoHints)
     = (sampleSession somePrompt twoHints)
         \<lparr>promptError := Some ''Something went wrong. Please try again.'',
          proxyCalls := [somePrompt],
          logged := [Error ''timeout of 30000ms exceeded'']\<rparr>"
  using evaluator_failure[of "sampleSession somePrompt twoHints" "sampleLevel imageT"
          "sampleEnv (Inl (Error ''timeout of 30000ms exceeded'')) 0"
          "Error ''timeout of 30000ms exceeded''" getPenaltyDetails sampleComplete]
    somePrompt_trim
  by (simp add: sampleSession_def sampleLevel_def sampleEnv_def)

text \<open>
  Claim C3. For an attempt that is scored, the last score is the final score of the
  penalty details, and the attempt passes exactly when the final score reaches the
  passing score: then the result is shown and \<open>completeLevel\<close> runs, with no alert;
  otherwise \<open>loseLife\<close> runs once and one alert is shown. \<open>loseLife\<close> takes one life
  while there is one, leaves zero lives at zero, never gives a negative number of lives
  and leaves \<open>maxLives\<close> as it is.
\<close>

theorem pass_fail_lives:
  assumes b: "handleGenerate_begin level s = Started s0"
    and e: "evaluate level env s0 = Inr (raw, s1)"
  shows "(let details = penalty (ledger s) (id_Api level) raw
                          (passingScore_Api level) (difficulty_Api level);
              final = finalScore details;
              s' = handleGenerate penalty completeLevel level env s
          in lastScore s' = final
           \<and> (if final \<ge> passingScore_Api level
              then showResult s'
                 \<and> store s' = completeLevel (id_Api level) (store s)
                 \<and> alerts s' = alerts s
              else showResult s' = showResult s
                 \<and> store s' = loseLife (store s)
                 \<and> alerts s' = alerts s
                      @ [(''Try Again'', tryAgainMessage final raw details level)]))
       \<and> currentLives (loseLife g) = (if currentLives g \<le> 0 then 0 else currentLives g - 1)
       \<and> 0 \<le> currentLives (loseLife g)
       \<and> maxLives (loseLife g) = maxLives g"
proof -
  note k = begin_keeps[OF b] evaluate_keeps[OF e]
  have "handleGenerate penalty completeLevel level env s
           = (applyScore penalty completeLevel level raw s1)\<lparr>isGenerating := False\<rparr>"
    by (rule handleGenerate_scored[OF b e])
  with k show ?thesis
    by (simp add: applyScore_def Let_def loseLife_def)
qed

theorem pass_fail_lives_witness:
  "showResult (handleGenerate getPenaltyDetails sampleComplete (sampleLevel copywritingT)
                 (sampleEnv (Inr None) 0) (sampleSession somePrompt Map.empty))
   \<and> lastScore (handleGenerate getPenaltyDetails sampleComplete (sampleLevel copywritingT)
                 (sampleEnv (Inr None) 0) (sampleSession somePrompt Map.empty)) = 85
   \<and> currentLives (loseLife (store (sampleSession somePrompt Map.empty))) = 2"
  using pass_fail_lives[where penalty = getPenaltyDetails and completeLevel = sampleComplete
          and s = "sampleSession somePrompt Map.empty" and env = "sampleEnv (Inr None) 0"
          and g = "store (sampleSession somePrompt Map.empty)",
          OF sample_begin sample_evaluate]
  by (simp add: Let_def getPenaltyDetails_def compute_def clamp_def usageCount_def
        sampleLevel_def sampleSession_def)

text \<open>
  Claim C2. With the penalty calculator of the specification, a scored attempt whose raw
  score reaches the passing score but whose final score, after the hint penalty, is below
  it is failed: a life is lost, an alert is shown, the result is not shown, and the last
  score is the final score. For a raw score of 85, a passing score of 75 and two hints
  at 8 points each the final score is 69.
\<close>

theorem hint_penalty_fails:
  assumes b: "handleGenerate_begin level s = Started s0"
    and e: "evaluate level env s0 = Inr (raw, s1)"
    and r: "passingScore_Api level \<le> raw"
    and f: "finalScore (getPenaltyDetails (ledger s) (id_Api level) raw
                          (passingScore_Api level) (difficulty_Api level))
              < passingScore_Api level"
  shows "store (handleGenerate getPenaltyDetails completeLevel level env s) = loseLife (store s)
       \<and> showResult (handleGenerate getPenaltyDetails completeLevel level env s) = showResult s
       \<and> lastScore (handleGenerate getPenaltyDetails completeLevel level env s)
           = finalScore (getPenaltyDetails (ledger s) (id_Api level) raw
                           (passingScore_Api level) (difficulty_Api level))
       \<and> length (alerts (handleGenerate getPenaltyDetails completeLevel level env s))
           = Suc (length (alerts s))
       \<and> finalScore (compute 85 75 easy 2) = 69"
proof -
  note k = begin_keeps[OF b] evaluate_keeps[OF e]
  have "handleGenerate getPenaltyDetails completeLevel level env s
           = (applyScore getPenaltyDetails completeLevel level raw s1)\<lparr>isGenerating := False\<rparr>"
    by (rule handleGenerate_scored[OF b e])
  moreover have "finalScore (compute 85 75 easy 2) = 69"
    by (simp add: compute_def clamp_def)
  ultimately show ?thesis using k f
    by (simp add: applyScore_def Let_def)
qed

theorem hint_penalty_fails_witness:
  "lastScore (handleGenerate getPenaltyDetails sampleComplete (sampleLevel copywritingT)
                 (sampleEnv (Inr None) 0) (sampleSession somePrompt twoHints)) = 69
   \<and> currentLives (store (handleGenerate getPenaltyDetails sampleComplete
                 (sampleLevel copywritingT) (sampleEnv (Inr None) 0)
                 (sampleSession somePrompt twoHints))) = 2
   \<and> \<not> showResult (handleGenerate getPenaltyDetails sampleComplete (sampleLevel copywritingT)
                 (sampleEnv (Inr None) 0) (sampleSession somePrompt twoHints))"
proof -
  have d: "finalScore (getPenaltyDetails (ledger (sampleSession somePrompt twoHints))
              (id_Api (sampleLevel copywritingT)) 85
              (passingScore_Api (sampleLevel copywritingT))
              (difficulty_Api (sampleLevel copywritingT))) = 69"
    by (simp add: getPenaltyDetails_def twoHints_usage compute_def clamp_def
          sampleLevel_def sampleSession_def)
  have r: "passingScore_Api (sampleLevel copywritingT) \<le> 85"
    by (simp add: sampleLevel_def)
  have f: "finalScore (getPenaltyDetails (ledger (sampleSession somePrompt twoHints))
              (id_Api (sampleLevel copywritingT)) 85
              (passingScore_Api (sampleLevel copywritingT))
              (difficulty_Api (sampleLevel copywritingT)))
            < passingScore_Api (sampleLevel copywritingT)"
    unfolding d by (simp add: sampleLevel_def)
  from hint_penalty_fails[where completeLevel = sampleComplete
          and env = "sampleEnv (Inr None) 0", OF sample_begin sample_evaluate r f]
  show ?thesis unfolding d
    by (simp add: loseLife_def sampleSession_def)
qed

section \<open>One attempt at a time\<close>

lemma fireGated_invariant:
  "inFlightInvariant c \<Longrightarrow> inFlightInvariant (fireGated penalty completeLevel level ev c)"
proof (cases c)
  case (Pair s n)
  assume "inFlightInvariant c"
  with Pair show ?thesis
    by (cases ev)
       (auto simp: handleGenerate_begin_def handleGenerate_resume_def handlePromptChange_def
             Let_def split: if_splits option.splits list.splits)
qed

lemma runGated_invariant:
  "inFlightInvariant c \<Longrightarrow> inFlightInvariant (runGated penalty completeLevel level events c)"
  unfolding runGated_def
  by (induction events arbitrary: c) (simp_all add: fireGated_invariant)

text \<open>
  Claim C8, as amended. \<open>handleGenerate\<close> sets \<open>isGenerating\<close> while its call is
  suspended and clears it when the call settles, and it does not read the flag. When the
  caller does not invoke \<open>handleGenerate\<close> while \<open>isGenerating\<close> is set, then in every
  state reached from a session that is not generating at most one call is in flight, and
  \<open>isGenerating\<close> is set exactly while one is.
\<close>

theorem gated_single_flight:
  assumes "\<not> isGenerating s"
  shows "snd (runGated penalty completeLevel level events (s, 0)) \<le> 1
       \<and> (isGenerating (fst (runGated penalty completeLevel level events (s, 0)))
            \<longleftrightarrow> snd (runGated penalty completeLevel level events (s, 0)) = 1)"
proof -
  from assms have "inFlightInvariant (s, 0)" by simp
  from runGated_invariant[OF this, of penalty completeLevel level events]
  show ?thesis
    by (cases "runGated penalty completeLevel level events (s, 0)") simp
qed

theorem gated_single_flight_witness:
  "snd (runGated getPenaltyDetails sampleComplete (sampleLevel imageT) [Submit, Submit]
          (sampleSession somePrompt twoHints, 0)) = 1
   \<and> isGenerating (fst (runGated getPenaltyDetails sampleComplete (sampleLevel imageT)
          [Submit, Submit] (sampleSession somePrompt twoHints, 0)))"
proof -
  have n: "\<not> isGenerating (sampleSession somePrompt twoHints)"
    by (simp add: sampleSession_def)
  have g: "isGenerating (fst (runGated getPenaltyDetails sampleComplete (sampleLevel imageT)
          [Submit, Submit] (sampleSession somePrompt twoHints, 0)))"
    using somePrompt_trim
    by (simp add: runGated_def handleGenerate_begin_def sampleSession_def sampleLevel_def Let_def)
  from gated_single_flight[where penalty = getPenaltyDetails and completeLevel = sampleComplete
         and level = "sampleLevel imageT" and events = "[Submit, Submit]", OF n] g
  show ?thesis by simp
qed

text \<open>
  Claim C8 as stated fails: a second press of the generate button while the first call
  is suspended is not rejected. Two calls are then in flight, the prompt has gone to the
  proxy twice, and when both attempts are scored below the passing score two lives are
  lost.
\<close>

theorem second_submit_counterexample:
  "isGenerating (fst (run getPenaltyDetails sampleComplete (sampleLevel imageT) [Submit]
          (sampleSession somePrompt twoHints, 0)))
   \<and> snd (run getPenaltyDetails sampleComplete (sampleLevel imageT) [Submit, Submit]
          (sampleSession somePrompt twoHints, 0)) = 2
   \<and> proxyCalls (fst (run getPenaltyDetails sampleComplete (sampleLevel imageT) [Submit, Submit]
          (sampleSession somePrompt twoHints, 0))) = [somePrompt, somePrompt]
   \<and> currentLives (store (fst (run getPenaltyDetails sampleComplete (sampleLevel imageT)
          [Submit, Submit, Settle (sampleEnv (Inr (Some ''img'')) 0),
           Settle (sampleEnv (Inr (Some ''img'')) 0)]
          (sampleSession somePrompt twoHints, 0)))) = 1"
  using somePrompt_trim
  by (simp add: run_def handleGenerate_begin_def handleGenerate_resume_def evaluate_def
        applyScore_def getPenaltyDetails_def twoHints_usage compute_def clamp_def loseLife_def
        sampleSession_def sampleLevel_def sampleEnv_def Let_def)

end
